theory Spec2Isabelle
  imports Main "HOL-Library.Multiset"
begin

section \<open>JavaScript strings and the platform\<close>

text \<open>
  A JavaScript string is a sequence of UTF-16 code units. \<open>lit\<close> writes an ASCII
  literal of the source as such a sequence.
\<close>

type_synonym jsstring = "nat list"

definition lit :: "string \<Rightarrow> jsstring" where
  "lit s = map of_char s"

text \<open>
  The ECMAScript \<open>WhiteSpace\<close> and \<open>LineTerminator\<close> code units: what \<open>\s\<close>
  matches in a regular expression and what \<open>String.prototype.trim\<close> removes.
\<close>

definition isWhiteSpace :: "nat \<Rightarrow> bool" where
  "isWhiteSpace c \<longleftrightarrow>
     c = 9 \<or> c = 10 \<or> c = 11 \<or> c = 12 \<or> c = 13 \<or> c = 32 \<or> c = 160 \<or> c = 5760
     \<or> (8192 \<le> c \<and> c \<le> 8202) \<or> c = 8232 \<or> c = 8233 \<or> c = 8239 \<or> c = 8287
     \<or> c = 12288 \<or> c = 65279"

definition trim :: "jsstring \<Rightarrow> jsstring" where
  "trim s = rev (dropWhile isWhiteSpace (rev (dropWhile isWhiteSpace s)))"

fun startsWith :: "jsstring \<Rightarrow> jsstring \<Rightarrow> bool" where
  "startsWith s [] = True"
| "startsWith [] (d # t) = False"
| "startsWith (c # s) (d # t) = (c = d \<and> startsWith s t)"

text \<open>\<open>s.includes(t)\<close>: \<open>t\<close> occurs in \<open>s\<close> as a contiguous run of code units.\<close>

fun includes_str :: "jsstring \<Rightarrow> jsstring \<Rightarrow> bool" where
  "includes_str [] t = (t = [])"
| "includes_str (c # s) t = (startsWith (c # s) t \<or> includes_str s t)"

text \<open>
  \<open>x || d\<close> for a field that holds a string or is absent (\<open>undefined\<close>, modelled as
  \<open>None\<close>): the empty string and the absent value are the falsy ones. The interface
  \<open>RadiologyRecord\<close> declares every field a string; the code guards the fields it
  reads with \<open>||\<close> all the same, so the guarded fields are optional here.
\<close>

definition orElse :: "jsstring option \<Rightarrow> jsstring \<Rightarrow> jsstring" where
  "orElse x d = (case x of None \<Rightarrow> d | Some s \<Rightarrow> if s = [] then d else s)"

text \<open>
  What the program takes from the JavaScript runtime and not from its own text: the
  Unicode tables behind \<open>String.prototype.normalize("NFD")\<close> and
  \<open>String.prototype.toUpperCase\<close>, and the implementation-defined part of the
  parser behind \<open>new Date(s)\<close>. They are parameters of the model; every theorem
  that quantifies over the platform holds for the tables of any runtime.
\<close>

record platform =
  normalize_NFD :: "jsstring \<Rightarrow> jsstring"
  toUpperCase :: "jsstring \<Rightarrow> jsstring"
  Date_parse_fallback :: "jsstring \<Rightarrow> int option"

section \<open>utils/dataProcessor.ts: normalize\<close>

text \<open>\<open>.replace(/[\u0300-\u036f]/g, "")\<close>: the code units U+0300 to U+036F are removed.\<close>

definition remove_accents :: "jsstring \<Rightarrow> jsstring" where
  "remove_accents s = filter (\<lambda>c. \<not> (768 \<le> c \<and> c \<le> 879)) s"

text \<open>\<open>.replace(/[().,;:-]/g, ' ')\<close>\<close>

definition isPunctuation :: "nat \<Rightarrow> bool" where
  "isPunctuation c \<longleftrightarrow> c = 40 \<or> c = 41 \<or> c = 46 \<or> c = 44 \<or> c = 59 \<or> c = 58 \<or> c = 45"

definition replace_punctuation :: "jsstring \<Rightarrow> jsstring" where
  "replace_punctuation s = map (\<lambda>c. if isPunctuation c then 32 else c) s"

text \<open>\<open>.replace(/\s+/g, ' ')\<close>: every maximal run of white space becomes one space.\<close>

function collapse_spaces :: "jsstring \<Rightarrow> jsstring" where
  "collapse_spaces [] = []"
| "collapse_spaces (c # s) =
     (if isWhiteSpace c then 32 # collapse_spaces (dropWhile isWhiteSpace s)
      else c # collapse_spaces s)"
  by pat_completeness auto
termination
  by (relation "measure length") (auto simp: length_dropWhile_le less_Suc_eq_le)

definition normalize :: "platform \<Rightarrow> jsstring \<Rightarrow> jsstring" where
  "normalize P str =
     trim (collapse_spaces (replace_punctuation
       (toUpperCase P (remove_accents (normalize_NFD P str)))))"

section \<open>utils/dataProcessor.ts: classifyRecord\<close>

datatype subcategory = CONTRASTADOS | ESPECIALES | STANDARD

record RadiologyRecord =
  id_paciente :: jsstring
  nombre_paciente :: jsstring
  descripcion :: "jsstring option"
  region :: jsstring
  fecha_realizado :: "jsstring option"
  modalidad :: "jsstring option"
  realizado_por :: "jsstring option"
  estado_reporte :: jsstring
  fecha_reporte :: jsstring
  subcategory :: subcategory

text \<open>
  The two procedure lists are imported from \<open>../constants\<close>, a module that is not
  part of the sources at hand: they are parameters.
\<close>

record constants =
  CONTRASTADOS_PROCEDURES :: "jsstring list"
  ESPECIALES_PROCEDURES :: "jsstring list"

definition hasContrastKeywords :: "jsstring \<Rightarrow> bool" where
  "hasContrastKeywords descNormalized \<longleftrightarrow>
     includes_str descNormalized (lit ''CONTRASTE'') \<or> includes_str descNormalized (lit ''CONTRASTADO'')"

definition classifyRecord :: "platform \<Rightarrow> constants \<Rightarrow> RadiologyRecord \<Rightarrow> RadiologyRecord" where
  "classifyRecord P K record =
     (let rawDesc = orElse (descripcion record) [];
          descNormalized = normalize P rawDesc;
          mod' = trim (toUpperCase P (orElse (modalidad record) []))
      in record\<lparr>subcategory :=
           (if hasContrastKeywords descNormalized then CONTRASTADOS
            else if mod' = lit ''CT'' then
              (if list_ex (\<lambda>p. includes_str descNormalized (normalize P p)) (CONTRASTADOS_PROCEDURES K)
               then CONTRASTADOS else STANDARD)
            else if mod' = lit ''CR'' then
              (if list_ex (\<lambda>p. includes_str descNormalized (normalize P p)) (ESPECIALES_PROCEDURES K)
               then ESPECIALES else STANDARD)
            else STANDARD)\<rparr>)"

section \<open>utils/dataProcessor.ts: getSummaryBySpecialist\<close>

record SummaryBySpecialist =
  specialist :: jsstring
  totalStudies :: nat
  modalities :: "(jsstring \<times> nat) list"
  subcategories :: "(subcategory \<times> nat) list"

text \<open>
  An object used as a dictionary: its own properties in the order of their creation.
  Writing an existing key keeps its place; a new key goes to the end.
\<close>

fun set_own :: "('k \<times> 'v) list \<Rightarrow> 'k \<Rightarrow> 'v \<Rightarrow> ('k \<times> 'v) list" where
  "set_own [] k v = [(k, v)]"
| "set_own ((k', v') # rest) k v =
     (if k' = k then (k, v) # rest else (k', v') # set_own rest k v)"

text \<open>
  The accumulator of the \<open>reduce\<close> starts as the literal \<open>{}\<close>, whose prototype is
  \<open>Object.prototype\<close>: reading \<open>acc[spec]\<close> for one of the names below finds the
  inherited member (a function, or the prototype itself for \<open>__proto__\<close>), which is
  truthy, so no group is created for it.
\<close>

definition Object_prototype_names :: "jsstring list" where
  "Object_prototype_names =
     [lit ''constructor'', lit ''hasOwnProperty'', lit ''isPrototypeOf'',
      lit ''propertyIsEnumerable'', lit ''toLocaleString'', lit ''toString'',
      lit ''valueOf'', lit ''__proto__'', lit ''__defineGetter__'',
      lit ''__defineSetter__'', lit ''__lookupGetter__'', lit ''__lookupSetter__'']"

text \<open>
  \<open>Object.values\<close> lists the own properties whose key is an array index (the canonical
  decimal string of an integer below \<open>2^32 - 1\<close>) first, in ascending numeric order, and
  then the other string keys in the order of their creation.
\<close>

definition isDigit :: "nat \<Rightarrow> bool" where
  "isDigit c \<longleftrightarrow> 48 \<le> c \<and> c \<le> 57"

definition digitsValue :: "jsstring \<Rightarrow> nat" where
  "digitsValue s = foldl (\<lambda>n c. 10 * n + (c - 48)) 0 s"

definition isArrayIndex :: "jsstring \<Rightarrow> bool" where
  "isArrayIndex k \<longleftrightarrow>
     k \<noteq> [] \<and> list_all isDigit k \<and> (k = [48] \<or> hd k \<noteq> 48) \<and> digitsValue k < 4294967295"

definition OwnPropertyKeys :: "jsstring list \<Rightarrow> jsstring list" where
  "OwnPropertyKeys ks =
     sort_key digitsValue (filter isArrayIndex ks) @ filter (\<lambda>k. \<not> isArrayIndex k) ks"

definition Object_values :: "(jsstring \<times> 'v) list \<Rightarrow> 'v list" where
  "Object_values obj = map (\<lambda>k. the (map_of obj k)) (OwnPropertyKeys (map fst obj))"

text \<open>
  \<open>Array.prototype.sort\<close> with a comparator, which the language requires to be stable.
  The argument is the comparator's result as the sort reads it (see \<open>SortCompare\<close>
  below). For a consistent comparator every conforming engine returns the list that this
  insertion sort returns. For an inconsistent one (the date comparator, as soon as a date
  that does not parse stands among dates that do) the language leaves the order to the
  engine and promises a permutation of the input only: this function then returns one
  such permutation, which need not be the engine's. It is evaluated below on consistent
  comparators only; on the others nothing but the permutation is used.
\<close>

fun insert_sorted :: "('a \<Rightarrow> 'a \<Rightarrow> int) \<Rightarrow> 'a \<Rightarrow> 'a list \<Rightarrow> 'a list" where
  "insert_sorted cmp x [] = [x]"
| "insert_sorted cmp x (y # ys) =
     (if cmp x y \<le> 0 then x # y # ys else y # insert_sorted cmp x ys)"

definition Array_sort :: "('a \<Rightarrow> 'a \<Rightarrow> int) \<Rightarrow> 'a list \<Rightarrow> 'a list" where
  "Array_sort cmp xs = foldr (insert_sorted cmp) xs []"

datatype js_error = TypeError

text \<open>
  \<open>obj[k]++\<close> on the subcategory counts. The three keys are created with the group and
  \<open>subcategory\<close> has no fourth value, so the key is always there.
\<close>

definition increment :: "('k \<times> nat) list \<Rightarrow> 'k \<Rightarrow> ('k \<times> nat) list" where
  "increment kvs k = map (\<lambda>kv. if fst kv = k then (fst kv, snd kv + 1) else kv) kvs"

definition specialist_key :: "RadiologyRecord \<Rightarrow> jsstring" where
  "specialist_key cur = trim (orElse (realizado_por cur) (lit ''SIN ASIGNAR''))"

definition modality_key :: "platform \<Rightarrow> RadiologyRecord \<Rightarrow> jsstring" where
  "modality_key P cur = toUpperCase P (trim (orElse (modalidad cur) (lit ''N/A'')))"

text \<open>
  The callback of the \<open>reduce\<close> (\<open>cur\<close> is the source's \<open>curr\<close>, \<open>mod'\<close> its
  \<open>mod\<close>). When \<open>spec\<close> names a member of \<open>Object.prototype\<close>,
  \<open>acc[spec].modalities\<close> is \<open>undefined\<close> and reading \<open>[mod]\<close> of it throws a
  \<open>TypeError\<close>. The keys of \<open>modalities\<close> are results of \<open>toUpperCase\<close>, and every
  name of \<open>Object.prototype\<close> has a lower-case ASCII letter, so that object is read
  through its own properties only.
\<close>

definition reducer ::
  "platform \<Rightarrow> (jsstring \<times> SummaryBySpecialist) list \<Rightarrow> RadiologyRecord
     \<Rightarrow> js_error + (jsstring \<times> SummaryBySpecialist) list" where
  "reducer P acc cur =
     (let spec = specialist_key cur;
          acc1 = (if map_of acc spec = None \<and> spec \<notin> set Object_prototype_names
                  then set_own acc spec
                         \<lparr>specialist = spec, totalStudies = 0, modalities = [],
                          subcategories = [(CONTRASTADOS, 0), (ESPECIALES, 0), (STANDARD, 0)]\<rparr>
                  else acc)
      in case map_of acc1 spec of
           None \<Rightarrow> Inl TypeError
         | Some g \<Rightarrow>
             (let mod' = modality_key P cur;
                  g' = g\<lparr>totalStudies := totalStudies g + 1,
                         modalities := set_own (modalities g) mod'
                           ((case map_of (modalities g) mod' of None \<Rightarrow> 0 | Some n \<Rightarrow> n) + 1),
                         subcategories := increment (subcategories g) (subcategory cur)\<rparr>
              in Inr (set_own acc1 spec g')))"

fun reduce ::
  "platform \<Rightarrow> (jsstring \<times> SummaryBySpecialist) list \<Rightarrow> RadiologyRecord list
     \<Rightarrow> js_error + (jsstring \<times> SummaryBySpecialist) list" where
  "reduce P acc [] = Inr acc"
| "reduce P acc (cur # rest) =
     (case reducer P acc cur of Inl e \<Rightarrow> Inl e | Inr acc' \<Rightarrow> reduce P acc' rest)"

definition getSummaryBySpecialist ::
  "platform \<Rightarrow> RadiologyRecord list \<Rightarrow> js_error + SummaryBySpecialist list" where
  "getSummaryBySpecialist P data =
     (case reduce P [] data of
        Inl e \<Rightarrow> Inl e
      | Inr grouped \<Rightarrow>
          Inr (Array_sort (\<lambda>a b. int (totalStudies b) - int (totalStudies a))
                 (Object_values grouped)))"

section \<open>App.tsx: dateRange\<close>

text \<open>
  \<open>s.split(/[\/\-]/)\<close>: the pieces of \<open>s\<close> between the code units \<open>/\<close> (47) and
  \<open>-\<close> (45); the empty string gives one empty piece.
\<close>

fun split_date :: "jsstring \<Rightarrow> jsstring list" where
  "split_date [] = [[]]"
| "split_date (c # s) =
     (if c = 47 \<or> c = 45 then [] # split_date s
      else (case split_date s of [] \<Rightarrow> [[c]] | p # ps \<Rightarrow> (c # p) # ps))"

text \<open>
  \<open>new Date(s).getTime()\<close>, with \<open>None\<close> for \<open>NaN\<close>. The language fixes the result
  for the date-only form \<open>YYYY-MM-DD\<close> of a calendar date: midnight UTC of that day, in
  milliseconds since 1970-01-01. Every other string is left to the platform.
\<close>

definition isLeapYear :: "int \<Rightarrow> bool" where
  "isLeapYear y \<longleftrightarrow> y mod 4 = 0 \<and> (y mod 100 \<noteq> 0 \<or> y mod 400 = 0)"

definition daysInMonth :: "int \<Rightarrow> int \<Rightarrow> int" where
  "daysInMonth y m =
     (if m = 2 then (if isLeapYear y then 29 else 28)
      else if m = 4 \<or> m = 6 \<or> m = 9 \<or> m = 11 then 30 else 31)"

definition days_from_civil :: "int \<Rightarrow> int \<Rightarrow> int \<Rightarrow> int" where
  "days_from_civil y m d =
     (let y' = (if m \<le> 2 then y - 1 else y);
          era = y' div 400;
          yoe = y' - era * 400;
          doy = (153 * (if m > 2 then m - 3 else m + 9) + 2) div 5 + d - 1;
          doe = yoe * 365 + yoe div 4 - yoe div 100 + doy
      in era * 146097 + doe - 719468)"

definition parse_iso_date :: "jsstring \<Rightarrow> int option" where
  "parse_iso_date s =
     (if length s = 10 \<and> s ! 4 = 45 \<and> s ! 7 = 45
         \<and> list_all isDigit (take 4 s) \<and> list_all isDigit (take 2 (drop 5 s))
         \<and> list_all isDigit (drop 8 s)
      then (let y = int (digitsValue (take 4 s));
                m = int (digitsValue (take 2 (drop 5 s)));
                d = int (digitsValue (drop 8 s))
            in if 1 \<le> m \<and> m \<le> 12 \<and> 1 \<le> d \<and> d \<le> daysInMonth y m
               then Some (days_from_civil y m d * 86400000) else None)
      else None)"

definition Date_getTime :: "platform \<Rightarrow> jsstring \<Rightarrow> int option" where
  "Date_getTime P s =
     (case parse_iso_date s of Some t \<Rightarrow> Some t | None \<Rightarrow> Date_parse_fallback P s)"

definition parseDate :: "platform \<Rightarrow> jsstring \<Rightarrow> int option" where
  "parseDate P s =
     (let parts = split_date s
      in if length parts = 3 then
           (if length (parts ! 0) = 2 \<and> length (parts ! 2) = 4
            then Date_getTime P (parts ! 2 @ [45] @ parts ! 1 @ [45] @ parts ! 0)
            else Date_getTime P s)
         else Date_getTime P s)"

text \<open>
  The comparator handed to \<open>sort\<close>: the difference of two time values, \<open>NaN\<close> as soon
  as one of them is \<open>NaN\<close>. Only the sign of a number is read by the sort, so the
  rounding of a difference beyond \<open>2^53\<close> is immaterial.
\<close>

definition dateComparator :: "platform \<Rightarrow> jsstring \<Rightarrow> jsstring \<Rightarrow> int option" where
  "dateComparator P a b =
     (case parseDate P a of
        None \<Rightarrow> None
      | Some x \<Rightarrow> (case parseDate P b of None \<Rightarrow> None | Some y \<Rightarrow> Some (x - y)))"

text \<open>
  How \<open>Array.prototype.sort\<close> reads its comparator (the abstract operation
  \<open>SortCompare\<close> of the language): a \<open>NaN\<close> result counts as \<open>+0\<close>.
\<close>

definition SortCompare :: "('a \<Rightarrow> 'a \<Rightarrow> int option) \<Rightarrow> 'a \<Rightarrow> 'a \<Rightarrow> int" where
  "SortCompare comparefn a b = (case comparefn a b of None \<Rightarrow> 0 | Some v \<Rightarrow> v)"

text \<open>The object \<open>{ min, max }\<close> that \<open>dateRange\<close> holds.\<close>

record DateRange =
  range_min :: jsstring
  range_max :: jsstring

definition validDates :: "RadiologyRecord list \<Rightarrow> jsstring list" where
  "validDates filteredData =
     map the (filter (\<lambda>f. case f of None \<Rightarrow> False | Some s \<Rightarrow> s \<noteq> [] \<and> trim s \<noteq> [])
                (map fecha_realizado filteredData))"

text \<open>
  The body of the \<open>useMemo\<close>. In the last branch \<open>sorted\<close> has the length of
  \<open>validDates\<close>, which is not empty there, so \<open>sorted[0]\<close> and
  \<open>sorted[sorted.length - 1]\<close> are its first and last element.
\<close>

definition dateRange :: "platform \<Rightarrow> RadiologyRecord list \<Rightarrow> DateRange" where
  "dateRange P filteredData =
     (if filteredData = [] then \<lparr>range_min = [], range_max = []\<rparr>
      else if validDates filteredData = []
      then \<lparr>range_min = lit ''N/A'', range_max = lit ''N/A''\<rparr>
      else (let sorted = Array_sort (SortCompare (dateComparator P)) (validDates filteredData)
            in \<lparr>range_min = hd sorted, range_max = last sorted\<rparr>))"

section \<open>What the grouping computes\<close>

text \<open>
  The order in which the values of a list are first seen, and, in these terms, the
  object that the \<open>reduce\<close> of \<open>getSummaryBySpecialist\<close> builds: one group for each
  specialist key, in first-seen order, holding the counts of the records with that key.
  The lemma \<open>reduce_expected\<close> below proves that the code computes it.
\<close>

definition first_seen :: "'a list \<Rightarrow> 'a list" where
  "first_seen xs = rev (remdups (rev xs))"

definition records_of :: "jsstring \<Rightarrow> RadiologyRecord list \<Rightarrow> RadiologyRecord list" where
  "records_of k data = filter (\<lambda>r. specialist_key r = k) data"

definition expected_summary ::
  "platform \<Rightarrow> RadiologyRecord list \<Rightarrow> jsstring \<Rightarrow> SummaryBySpecialist" where
  "expected_summary P data k =
     \<lparr>specialist = k,
      totalStudies = length (records_of k data),
      modalities =
        map (\<lambda>m. (m, length (filter (\<lambda>r. modality_key P r = m) (records_of k data))))
          (first_seen (map (modality_key P) (records_of k data))),
      subcategories =
        map (\<lambda>c. (c, length (filter (\<lambda>r. subcategory r = c) (records_of k data))))
          [CONTRASTADOS, ESPECIALES, STANDARD]\<rparr>"

definition expected_grouped ::
  "platform \<Rightarrow> RadiologyRecord list \<Rightarrow> (jsstring \<times> SummaryBySpecialist) list" where
  "expected_grouped P data =
     map (\<lambda>k. (k, expected_summary P data k)) (first_seen (map specialist_key data))"

section \<open>A platform for evaluation\<close>

text \<open>
  Modelled from the Unicode standard, not from the sources: the canonical decompositions,
  combining classes and upper-case mappings of the code units listed here, enough to run
  the program on Spanish text. On strings over ASCII, the accented letters
  \<open>A E I O U N\<close> with acute, tilde or diaeresis as listed (both cases), and the marks
  U+0301, U+0303, U+0308, U+034F, U+0591 and U+05B0, \<open>normalize_NFD\<close> and
  \<open>toUpperCase\<close> of \<open>es_platform\<close> are those of every runtime. Its date parser
  rejects every string that is not a \<open>YYYY-MM-DD\<close> calendar date.
\<close>

definition canonical_decomposition :: "nat \<Rightarrow> nat list" where
  "canonical_decomposition c =
     (if c = 193 then [65, 769] else if c = 201 then [69, 769] else if c = 205 then [73, 769]
      else if c = 211 then [79, 769] else if c = 218 then [85, 769] else if c = 209 then [78, 771]
      else if c = 220 then [85, 776] else if c = 225 then [97, 769] else if c = 233 then [101, 769]
      else if c = 237 then [105, 769] else if c = 243 then [111, 769] else if c = 250 then [117, 769]
      else if c = 241 then [110, 771] else if c = 252 then [117, 776] else [c])"

definition combining_class :: "nat \<Rightarrow> nat" where
  "combining_class c =
     (if c = 769 \<or> c = 771 \<or> c = 776 then 230 else if c = 1425 then 220
      else if c = 1456 then 10 else 0)"

text \<open>
  Canonical ordering: a mark moves left past the marks of a higher combining class that
  precede it; a code unit of class 0 stops it. The list is the output so far, reversed.
\<close>

fun put_in_order :: "nat \<Rightarrow> nat list \<Rightarrow> nat list" where
  "put_in_order c [] = [c]"
| "put_in_order c (d # ds) =
     (if combining_class c \<noteq> 0 \<and> combining_class c < combining_class d
      then d # put_in_order c ds else c # d # ds)"

definition es_NFD :: "jsstring \<Rightarrow> jsstring" where
  "es_NFD s = rev (foldl (\<lambda>out c. put_in_order c out) [] (concat (map canonical_decomposition s)))"

definition es_upper :: "nat \<Rightarrow> nat" where
  "es_upper c =
     (if 97 \<le> c \<and> c \<le> 122 then c - 32
      else if c = 225 \<or> c = 233 \<or> c = 237 \<or> c = 243 \<or> c = 250 \<or> c = 241 \<or> c = 252
      then c - 32 else c)"

definition es_platform :: platform where
  "es_platform =
     \<lparr>normalize_NFD = es_NFD, toUpperCase = map es_upper, Date_parse_fallback = (\<lambda>s. None)\<rparr>"


section \<open>Sample data\<close>

definition blank_record :: RadiologyRecord where
  "blank_record =
     \<lparr>id_paciente = [], nombre_paciente = [], descripcion = None, region = [],
      fecha_realizado = None, modalidad = None, realizado_por = None, estado_reporte = [],
      fecha_reporte = [], subcategory = STANDARD\<rparr>"

definition no_procedures :: constants where
  "no_procedures = \<lparr>CONTRASTADOS_PROCEDURES = [], ESPECIALES_PROCEDURES = []\<rparr>"

definition study :: "string \<Rightarrow> string \<Rightarrow> subcategory \<Rightarrow> RadiologyRecord" where
  "study who modality sub =
     blank_record\<lparr>realizado_por := Some (lit who), modalidad := Some (lit modality),
                  subcategory := sub\<rparr>"

section \<open>Strings\<close>

lemma startsWith_iff: "startsWith s t \<longleftrightarrow> (\<exists>v. s = t @ v)"
  by (induction s t rule: startsWith.induct) auto

text \<open>\<open>includes_str\<close> is the substring test.\<close>

lemma includes_str_iff: "includes_str s t \<longleftrightarrow> (\<exists>u v. s = u @ t @ v)"
proof (induction s)
  case Nil
  then show ?case by simp
next
  case (Cons c s)
  show ?case
  proof
    assume "includes_str (c # s) t"
    then consider "startsWith (c # s) t" | "includes_str s t" by auto
    then show "\<exists>u v. c # s = u @ t @ v"
    proof cases
      case 1
      then obtain v where "c # s = t @ v" by (auto simp: startsWith_iff)
      then have "c # s = [] @ t @ v" by simp
      then show ?thesis by blast
    next
      case 2
      then obtain u v where "s = u @ t @ v" using Cons.IH by auto
      then have "c # s = (c # u) @ t @ v" by simp
      then show ?thesis by blast
    qed
  next
    assume "\<exists>u v. c # s = u @ t @ v"
    then obtain u v where uv: "c # s = u @ t @ v" by blast
    show "includes_str (c # s) t"
    proof (cases u)
      case Nil
      then have "c # s = t @ v" using uv by simp
      then have "startsWith (c # s) t" unfolding startsWith_iff by blast
      then show ?thesis by simp
    next
      case (Cons d u')
      then have "s = u' @ t @ v" using uv by simp
      then show ?thesis using Cons.IH by auto
    qed
  qed
qed

lemmas es_platform_eval =
  normalize_def es_platform_def es_NFD_def canonical_decomposition_def combining_class_def
  remove_accents_def es_upper_def replace_punctuation_def isPunctuation_def isWhiteSpace_def
  trim_def lit_def

section \<open>classifyRecord\<close>

text \<open>
  C1. A record whose normalized description contains \<open>CONTRASTE\<close> or \<open>CONTRASTADO\<close> as a
  substring is classified \<open>CONTRASTADOS\<close>, whatever its modality and whatever the two
  procedure lists hold: the result is the record with that subcategory and nothing else
  of the input is read.
\<close>

theorem classifyRecord_contrast_keywords:
  assumes "\<exists>u v. normalize P (orElse (descripcion record) []) = u @ lit ''CONTRASTE'' @ v
         \<or> normalize P (orElse (descripcion record) []) = u @ lit ''CONTRASTADO'' @ v"
  shows "classifyRecord P K record = record\<lparr>subcategory := CONTRASTADOS\<rparr>"
proof -
  have "hasContrastKeywords (normalize P (orElse (descripcion record) []))"
    unfolding hasContrastKeywords_def includes_str_iff using assms by blast
  then show ?thesis by (simp add: classifyRecord_def Let_def)
qed

theorem classifyRecord_contrast_keywords_witness:
  "normalize es_platform (orElse (descripcion
      (blank_record\<lparr>descripcion := Some (lit ''Eco (con contraste)''), modalidad := Some (lit ''US'')\<rparr>)) [])
     = lit ''ECO CON '' @ lit ''CONTRASTE'' @ []
   \<and> subcategory (classifyRecord es_platform no_procedures
        (blank_record\<lparr>descripcion := Some (lit ''Eco (con contraste)''), modalidad := Some (lit ''US'')\<rparr>))
     = CONTRASTADOS"
proof -
  let ?r = "blank_record\<lparr>descripcion := Some (lit ''Eco (con contraste)''), modalidad := Some (lit ''US'')\<rparr>"
  have n: "normalize es_platform (orElse (descripcion ?r) []) = lit ''ECO CON '' @ lit ''CONTRASTE'' @ []"
    by (simp add: blank_record_def orElse_def es_platform_eval)
  then have "\<exists>u v. normalize es_platform (orElse (descripcion ?r) []) = u @ lit ''CONTRASTE'' @ v
         \<or> normalize es_platform (orElse (descripcion ?r) []) = u @ lit ''CONTRASTADO'' @ v"
    by blast
  from classifyRecord_contrast_keywords [OF this, of no_procedures] n show ?thesis by simp
qed

text \<open>
  C2, as stated, fails: an ultrasound record whose description mentions contrast is
  classified \<open>CONTRASTADOS\<close>, since the keyword rule comes before every rule on the
  modality.
\<close>

theorem classifyRecord_US_contrast_counterexample:
  "trim (toUpperCase es_platform (orElse (modalidad
      (blank_record\<lparr>descripcion := Some (lit ''Eco (con contraste)''), modalidad := Some (lit ''US'')\<rparr>)) []))
     = lit ''US''
   \<and> subcategory (classifyRecord es_platform no_procedures
        (blank_record\<lparr>descripcion := Some (lit ''Eco (con contraste)''), modalidad := Some (lit ''US'')\<rparr>))
     \<noteq> STANDARD"
  by (simp add: classifyRecord_def hasContrastKeywords_def blank_record_def orElse_def
        es_platform_eval)

text \<open>
  C2, amended. A record whose modality, upper-cased and trimmed, is \<open>US\<close> or \<open>MG\<close> is
  classified \<open>STANDARD\<close> unless its normalized description contains \<open>CONTRASTE\<close> or
  \<open>CONTRASTADO\<close>, in which case it is classified \<open>CONTRASTADOS\<close>; the procedure lists
  play no part.
\<close>

theorem classifyRecord_US_MG:
  assumes "trim (toUpperCase P (orElse (modalidad record) [])) = lit ''US''
         \<or> trim (toUpperCase P (orElse (modalidad record) [])) = lit ''MG''"
  shows "subcategory (classifyRecord P K record)
       = (if includes_str (normalize P (orElse (descripcion record) [])) (lit ''CONTRASTE'')
             \<or> includes_str (normalize P (orElse (descripcion record) [])) (lit ''CONTRASTADO'')
          then CONTRASTADOS else STANDARD)"
proof -
  have "lit ''US'' \<noteq> lit ''CT''" "lit ''US'' \<noteq> lit ''CR''"
       "lit ''MG'' \<noteq> lit ''CT''" "lit ''MG'' \<noteq> lit ''CR''"
    by (simp_all add: lit_def)
  with assms show ?thesis
    by (auto simp: classifyRecord_def Let_def hasContrastKeywords_def)
qed

theorem classifyRecord_US_MG_witness:
  "trim (toUpperCase es_platform (orElse (modalidad
      (blank_record\<lparr>descripcion := Some (lit ''Mamografia bilateral''), modalidad := Some (lit '' mg'')\<rparr>)) []))
     = lit ''MG''
   \<and> subcategory (classifyRecord es_platform no_procedures
        (blank_record\<lparr>descripcion := Some (lit ''Mamografia bilateral''), modalidad := Some (lit '' mg'')\<rparr>))
     = STANDARD"
proof -
  let ?r = "blank_record\<lparr>descripcion := Some (lit ''Mamografia bilateral''), modalidad := Some (lit '' mg'')\<rparr>"
  have m: "trim (toUpperCase es_platform (orElse (modalidad ?r) [])) = lit ''MG''"
    by (simp add: blank_record_def orElse_def es_platform_eval)
  have d: "normalize es_platform (orElse (descripcion ?r) []) = lit ''MAMOGRAFIA BILATERAL''"
    by (simp add: blank_record_def orElse_def es_platform_eval)
  have k: "\<not> includes_str (lit ''MAMOGRAFIA BILATERAL'') (lit ''CONTRASTE'')"
          "\<not> includes_str (lit ''MAMOGRAFIA BILATERAL'') (lit ''CONTRASTADO'')"
    by (simp_all add: lit_def)
  from classifyRecord_US_MG [of es_platform ?r no_procedures] m d k show ?thesis by simp
qed

section \<open>normalize\<close>


































section \<open>dateRange\<close>

lemma mset_insert_sorted: "mset (insert_sorted cmp x ys) = add_mset x (mset ys)"
  by (induction ys) auto

lemma mset_Array_sort: "mset (Array_sort cmp xs) = mset xs"
  by (induction xs) (auto simp: Array_sort_def mset_insert_sorted)

lemma set_Array_sort: "set (Array_sort cmp xs) = set xs"
  using mset_Array_sort [of cmp xs] by (metis set_mset_mset)

lemma Array_sort_Nil_iff: "Array_sort cmp xs = [] \<longleftrightarrow> xs = []"
  using mset_Array_sort [of cmp xs] by (metis mset_zero_iff)

lemma validDates_subset: "s \<in> set (validDates data) \<Longrightarrow> Some s \<in> fecha_realizado ` set data"
  by (auto simp: validDates_def split: option.splits)

lemma parseDate_dmy: "parseDate P (lit ''15/03/2024'') = Some 1710460800000"
  by (simp add: parseDate_def Date_getTime_def parse_iso_date_def isDigit_def digitsValue_def
        daysInMonth_def isLeapYear_def days_from_civil_def lit_def)

lemma parseDate_iso: "parseDate P (lit ''2024-01-10'') = Some 1704844800000"
  by (simp add: parseDate_def Date_getTime_def parse_iso_date_def isDigit_def digitsValue_def
        daysInMonth_def isLeapYear_def days_from_civil_def lit_def)

lemma parseDate_dmy2: "parseDate P (lit ''20/02/2024'') = Some 1708387200000"
  by (simp add: parseDate_def Date_getTime_def parse_iso_date_def isDigit_def digitsValue_def
        daysInMonth_def isLeapYear_def days_from_civil_def lit_def)

lemma trim_blank: "list_all isWhiteSpace s \<Longrightarrow> trim s = []"
  by (auto simp: trim_def list_all_iff dest: set_dropWhileD)

text \<open>
  C5. For records dated \<open>15/03/2024\<close>, \<open>2024-01-10\<close> and \<open>20/02/2024\<close>, in that order,
  the resolved range is from \<open>2024-01-10\<close> to \<open>15/03/2024\<close>, on every platform. In
  general, whenever some record carries a date that is not blank, each of the two bounds
  is the date field of a record of the input, as it stands there.
\<close>

theorem dateRange_bounds:
  "dateRange P [blank_record\<lparr>fecha_realizado := Some (lit ''15/03/2024'')\<rparr>,
                blank_record\<lparr>fecha_realizado := Some (lit ''2024-01-10'')\<rparr>,
                blank_record\<lparr>fecha_realizado := Some (lit ''20/02/2024'')\<rparr>]
     = \<lparr>range_min = lit ''2024-01-10'', range_max = lit ''15/03/2024''\<rparr>
   \<and> (validDates data \<noteq> [] \<longrightarrow>
        Some (range_min (dateRange P data)) \<in> fecha_realizado ` set data
        \<and> Some (range_max (dateRange P data)) \<in> fecha_realizado ` set data)"
proof
  have v: "validDates [blank_record\<lparr>fecha_realizado := Some (lit ''15/03/2024'')\<rparr>,
                blank_record\<lparr>fecha_realizado := Some (lit ''2024-01-10'')\<rparr>,
                blank_record\<lparr>fecha_realizado := Some (lit ''20/02/2024'')\<rparr>]
            = [lit ''15/03/2024'', lit ''2024-01-10'', lit ''20/02/2024'']"
    by (simp add: validDates_def blank_record_def trim_def isWhiteSpace_def lit_def)
  have s: "Array_sort (SortCompare (dateComparator P))
             [lit ''15/03/2024'', lit ''2024-01-10'', lit ''20/02/2024'']
           = [lit ''2024-01-10'', lit ''20/02/2024'', lit ''15/03/2024'']"
    by (simp add: Array_sort_def SortCompare_def dateComparator_def parseDate_dmy parseDate_iso
          parseDate_dmy2)
  show "dateRange P [blank_record\<lparr>fecha_realizado := Some (lit ''15/03/2024'')\<rparr>,
                blank_record\<lparr>fecha_realizado := Some (lit ''2024-01-10'')\<rparr>,
                blank_record\<lparr>fecha_realizado := Some (lit ''20/02/2024'')\<rparr>]
     = \<lparr>range_min = lit ''2024-01-10'', range_max = lit ''15/03/2024''\<rparr>"
    unfolding dateRange_def v s by (simp add: lit_def)
next
  show "validDates data \<noteq> [] \<longrightarrow>
        Some (range_min (dateRange P data)) \<in> fecha_realizado ` set data
        \<and> Some (range_max (dateRange P data)) \<in> fecha_realizado ` set data"
  proof
    assume ne: "validDates data \<noteq> []"
    let ?sorted = "Array_sort (SortCompare (dateComparator P)) (validDates data)"
    have d: "data \<noteq> []" using ne by (auto simp: validDates_def)
    have sne: "?sorted \<noteq> []" using ne by (simp add: Array_sort_Nil_iff)
    then have "hd ?sorted \<in> set (validDates data)" "last ?sorted \<in> set (validDates data)"
      using set_Array_sort [of "SortCompare (dateComparator P)" "validDates data"]
            hd_in_set [OF sne] last_in_set [OF sne] by auto
    then show "Some (range_min (dateRange P data)) \<in> fecha_realizado ` set data
        \<and> Some (range_max (dateRange P data)) \<in> fecha_realizado ` set data"
      using ne d by (simp add: dateRange_def Let_def validDates_subset)
  qed
qed

theorem dateRange_bounds_witness:
  "validDates [blank_record, blank_record\<lparr>fecha_realizado := Some (lit ''10-01-2024'')\<rparr>] \<noteq> []
   \<and> Some (range_min (dateRange es_platform
              [blank_record, blank_record\<lparr>fecha_realizado := Some (lit ''10-01-2024'')\<rparr>]))
       \<in> fecha_realizado ` set [blank_record, blank_record\<lparr>fecha_realizado := Some (lit ''10-01-2024'')\<rparr>]"
proof -
  let ?ds = "[blank_record, blank_record\<lparr>fecha_realizado := Some (lit ''10-01-2024'')\<rparr>]"
  have v: "validDates ?ds \<noteq> []"
    by (simp add: validDates_def blank_record_def trim_def isWhiteSpace_def lit_def)
  from dateRange_bounds [of es_platform ?ds] v show ?thesis by blast
qed

text \<open>
  C6. The comparator returns either the difference of the two time values or \<open>NaN\<close>;
  no step of it can throw. As soon as one of the two strings does not parse, it returns
  \<open>NaN\<close>, which the sort reads as \<open>+0\<close> in both directions: neither string orders
  before the other.
\<close>

theorem dateComparator_unparsable:
  "((\<exists>x y. parseDate P a = Some x \<and> parseDate P b = Some y \<and> dateComparator P a b = Some (x - y))
     \<or> dateComparator P a b = None)
   \<and> (parseDate P a = None \<or> parseDate P b = None \<longrightarrow>
        dateComparator P a b = None
        \<and> SortCompare (dateComparator P) a b = 0
        \<and> SortCompare (dateComparator P) b a = 0)"
  by (auto simp: dateComparator_def SortCompare_def split: option.splits)

theorem dateComparator_unparsable_witness:
  "parseDate es_platform (lit ''sin fecha'') = None
   \<and> SortCompare (dateComparator es_platform) (lit ''sin fecha'') (lit ''2024-01-10'') = 0
   \<and> SortCompare (dateComparator es_platform) (lit ''2024-01-10'') (lit ''sin fecha'') = 0"
proof -
  have p: "parseDate es_platform (lit ''sin fecha'') = None"
    by (simp add: parseDate_def Date_getTime_def parse_iso_date_def es_platform_def lit_def)
  from dateComparator_unparsable [of es_platform "lit ''sin fecha''" "lit ''2024-01-10''"] p
  show ?thesis by blast
qed

text \<open>
  C7. An empty collection gives the pair of empty strings. A collection that is not empty
  and whose records all have a date field that is absent, empty or made of white space
  only gives the pair \<open>N/A\<close>, \<open>N/A\<close>, which differs from the first.
\<close>

theorem dateRange_sentinels:
  "dateRange P [] = \<lparr>range_min = [], range_max = []\<rparr>
   \<and> (data \<noteq> [] \<and> (\<forall>r\<in>set data. case fecha_realizado r of None \<Rightarrow> True
                                    | Some s \<Rightarrow> list_all isWhiteSpace s) \<longrightarrow>
        dateRange P data = \<lparr>range_min = lit ''N/A'', range_max = lit ''N/A''\<rparr>)
   \<and> lit ''N/A'' \<noteq> []"
proof -
  have "validDates data = []"
    if "\<forall>r\<in>set data. case fecha_realizado r of None \<Rightarrow> True | Some s \<Rightarrow> list_all isWhiteSpace s"
    using that by (auto simp: validDates_def filter_empty_conv trim_blank split: option.splits)
  then show ?thesis by (auto simp: dateRange_def lit_def)
qed

theorem dateRange_sentinels_witness:
  "[blank_record\<lparr>fecha_realizado := Some (lit ''   '')\<rparr>, blank_record\<lparr>fecha_realizado := Some []\<rparr>] \<noteq> []
   \<and> dateRange es_platform
        [blank_record\<lparr>fecha_realizado := Some (lit ''   '')\<rparr>, blank_record\<lparr>fecha_realizado := Some []\<rparr>]
     = \<lparr>range_min = lit ''N/A'', range_max = lit ''N/A''\<rparr>"
proof -
  let ?ds = "[blank_record\<lparr>fecha_realizado := Some (lit ''   '')\<rparr>, blank_record\<lparr>fecha_realizado := Some []\<rparr>]"
  have h: "?ds \<noteq> [] \<and> (\<forall>r\<in>set ?ds. case fecha_realizado r of None \<Rightarrow> True
                                    | Some s \<Rightarrow> list_all isWhiteSpace s)"
    by (simp add: isWhiteSpace_def lit_def)
  from dateRange_sentinels [of es_platform ?ds] h show ?thesis by blast
qed

section \<open>getSummaryBySpecialist\<close>

text \<open>
  The \<open>reduce\<close> builds, record by record, the object described by \<open>expected_grouped\<close>,
  and throws as soon as a specialist key names a member of \<open>Object.prototype\<close>.
\<close>

lemma first_seen_snoc:
  "first_seen (xs @ [x]) = (if x \<in> set xs then first_seen xs else first_seen xs @ [x])"
  by (simp add: first_seen_def)

lemma set_first_seen: "set (first_seen xs) = set xs"
  by (simp add: first_seen_def)

lemma distinct_first_seen: "distinct (first_seen xs)"
  by (simp add: first_seen_def)

lemma first_seen_Nil: "first_seen [] = []"
  by (simp add: first_seen_def)

lemma set_own_map:
  "distinct ks \<Longrightarrow>
   set_own (map (\<lambda>k. (k, f k)) ks) k v
     = map (\<lambda>k'. (k', if k' = k then v else f k')) (if k \<in> set ks then ks else ks @ [k])"
  by (induction ks) auto

lemma map_of_map_key:
  "map_of (map (\<lambda>k. (k, f k)) ks) k = (if k \<in> set ks then Some (f k) else None)"
  by (induction ks) auto

lemma records_of_snoc:
  "records_of k (seen @ [cur])
     = (if specialist_key cur = k then records_of k seen @ [cur] else records_of k seen)"
  by (simp add: records_of_def)

lemma expected_summary_other:
  "specialist_key cur \<noteq> k \<Longrightarrow> expected_summary P (seen @ [cur]) k = expected_summary P seen k"
  by (simp add: expected_summary_def records_of_snoc)

lemma count_zero_notin:
  "m \<notin> set (map f rs) \<Longrightarrow> length (filter (\<lambda>r. f r = m) rs) = 0"
  by (induction rs) auto

lemma modalities_step:
  fixes P :: platform and rs :: "RadiologyRecord list"
  defines "M \<equiv> first_seen (map (modality_key P) rs)"
  defines "old \<equiv> map (\<lambda>m. (m, length (filter (\<lambda>r. modality_key P r = m) rs))) M"
  shows "set_own old (modality_key P cur)
           ((case map_of old (modality_key P cur) of None \<Rightarrow> 0 | Some n \<Rightarrow> n) + 1)
         = map (\<lambda>m. (m, length (filter (\<lambda>r. modality_key P r = m) (rs @ [cur]))))
             (first_seen (map (modality_key P) (rs @ [cur])))"
proof -
  let ?m0 = "modality_key P cur"
  let ?cnt = "\<lambda>m. length (filter (\<lambda>r. modality_key P r = m) rs)"
  have d: "distinct M" by (simp add: M_def distinct_first_seen)
  have sM: "set M = set (map (modality_key P) rs)" by (simp add: M_def set_first_seen)
  have v: "(case map_of old ?m0 of None \<Rightarrow> 0 | Some n \<Rightarrow> n) = ?cnt ?m0"
  proof (cases "?m0 \<in> set M")
    case True
    then show ?thesis by (simp add: old_def map_of_map_key)
  next
    case False
    then have "?cnt ?m0 = 0" using sM count_zero_notin [of ?m0 "modality_key P" rs] by simp
    with False show ?thesis by (simp add: old_def map_of_map_key)
  qed
  have f: "first_seen (map (modality_key P) (rs @ [cur])) = (if ?m0 \<in> set M then M else M @ [?m0])"
    using sM by (simp add: first_seen_snoc M_def)
  have "set_own old ?m0 (?cnt ?m0 + 1)
          = map (\<lambda>m. (m, if m = ?m0 then ?cnt ?m0 + 1 else ?cnt m)) (if ?m0 \<in> set M then M else M @ [?m0])"
    unfolding old_def by (rule set_own_map [OF d])
  also have "\<dots> = map (\<lambda>m. (m, length (filter (\<lambda>r. modality_key P r = m) (rs @ [cur]))))
                     (if ?m0 \<in> set M then M else M @ [?m0])"
    by (rule map_cong) auto
  finally show ?thesis using v f by simp
qed

lemma subcategories_step:
  "increment (map (\<lambda>c. (c, length (filter (\<lambda>r. subcategory r = c) rs))) cs) (subcategory cur)
     = map (\<lambda>c. (c, length (filter (\<lambda>r. subcategory r = c) (rs @ [cur])))) cs"
  by (induction cs) (auto simp: increment_def)

lemma expected_summary_step:
  assumes "specialist_key cur = k"
  shows "(expected_summary P seen k)
           \<lparr>totalStudies := totalStudies (expected_summary P seen k) + 1,
            modalities := set_own (modalities (expected_summary P seen k)) (modality_key P cur)
              ((case map_of (modalities (expected_summary P seen k)) (modality_key P cur) of
                  None \<Rightarrow> 0 | Some n \<Rightarrow> n) + 1),
            subcategories := increment (subcategories (expected_summary P seen k)) (subcategory cur)\<rparr>
         = expected_summary P (seen @ [cur]) k"
proof -
  let ?E = "expected_summary P seen k"
  let ?E' = "expected_summary P (seen @ [cur]) k"
  have r: "records_of k (seen @ [cur]) = records_of k seen @ [cur]"
    using assms by (simp add: records_of_snoc)
  have m: "modalities ?E = map (\<lambda>m. (m, length (filter (\<lambda>r. modality_key P r = m) (records_of k seen))))
            (first_seen (map (modality_key P) (records_of k seen)))"
    by (simp add: expected_summary_def)
  have m': "modalities ?E' = map (\<lambda>m. (m, length (filter (\<lambda>r. modality_key P r = m) (records_of k seen @ [cur]))))
            (first_seen (map (modality_key P) (records_of k seen @ [cur])))"
    unfolding expected_summary_def r by (simp only: SummaryBySpecialist.select_convs)
  have mstep: "set_own (modalities ?E) (modality_key P cur)
              ((case map_of (modalities ?E) (modality_key P cur) of None \<Rightarrow> 0 | Some n \<Rightarrow> n) + 1)
            = modalities ?E'"
    unfolding m m' by (rule modalities_step)
  have c: "subcategories ?E = map (\<lambda>c. (c, length (filter (\<lambda>r. subcategory r = c) (records_of k seen))))
            [CONTRASTADOS, ESPECIALES, STANDARD]"
    unfolding expected_summary_def by (simp only: SummaryBySpecialist.select_convs)
  have c': "subcategories ?E' = map (\<lambda>c. (c, length (filter (\<lambda>r. subcategory r = c) (records_of k seen @ [cur]))))
            [CONTRASTADOS, ESPECIALES, STANDARD]"
    unfolding expected_summary_def r by (simp only: SummaryBySpecialist.select_convs)
  have sstep: "increment (subcategories ?E) (subcategory cur) = subcategories ?E'"
    unfolding c c' by (rule subcategories_step)
  have t: "totalStudies ?E + 1 = totalStudies ?E'"
    by (simp add: expected_summary_def r)
  have s: "specialist ?E = specialist ?E'"
    by (simp add: expected_summary_def)
  show ?thesis
    unfolding mstep sstep t using s by (cases ?E, cases ?E') simp
qed

lemma expected_summary_empty:
  assumes "k \<notin> set (map specialist_key seen)"
  shows "expected_summary P seen k
       = \<lparr>specialist = k, totalStudies = 0, modalities = [],
          subcategories = [(CONTRASTADOS, 0), (ESPECIALES, 0), (STANDARD, 0)]\<rparr>"
proof -
  have "records_of k seen = []" using assms by (auto simp: records_of_def filter_empty_conv)
  then show ?thesis by (simp add: expected_summary_def first_seen_Nil)
qed

lemma reducer_expected:
  assumes np: "specialist_key cur \<notin> set Object_prototype_names"
  shows "reducer P (expected_grouped P seen) cur = Inr (expected_grouped P (seen @ [cur]))"
proof -
  let ?k = "specialist_key cur"
  let ?F = "first_seen (map specialist_key seen)"
  let ?F' = "if ?k \<in> set ?F then ?F else ?F @ [?k]"
  let ?E = "expected_summary P seen"
  let ?init = "\<lparr>specialist = ?k, totalStudies = 0, modalities = [],
          subcategories = [(CONTRASTADOS, 0), (ESPECIALES, 0), (STANDARD, 0)]\<rparr>"
  let ?acc1 = "if map_of (expected_grouped P seen) ?k = None \<and> ?k \<notin> set Object_prototype_names
               then set_own (expected_grouped P seen) ?k ?init else expected_grouped P seen"
  have d: "distinct ?F" by (rule distinct_first_seen)
  have sF: "set ?F = set (map specialist_key seen)" by (rule set_first_seen)
  have acc1: "?acc1 = map (\<lambda>k. (k, ?E k)) ?F'"
  proof (cases "?k \<in> set ?F")
    case True
    then show ?thesis by (simp add: expected_grouped_def map_of_map_key)
  next
    case False
    then have e: "?E ?k = ?init" using sF expected_summary_empty [of ?k seen P] by simp
    have "set_own (map (\<lambda>k. (k, ?E k)) ?F) ?k ?init
            = map (\<lambda>k'. (k', if k' = ?k then ?init else ?E k')) ?F'"
      by (rule set_own_map [OF d])
    also have "\<dots> = map (\<lambda>k. (k, ?E k)) ?F'"
      by (rule map_cong) (auto simp: e)
    finally show ?thesis using False np by (simp add: expected_grouped_def map_of_map_key)
  qed
  have d': "distinct ?F'" using d by simp
  have in': "?k \<in> set ?F'" by simp
  have look: "map_of ?acc1 ?k = Some (?E ?k)"
    unfolding acc1 using in' by (simp only: map_of_map_key if_True)
  let ?g' = "expected_summary P (seen @ [cur]) ?k"
  have upd: "set_own ?acc1 ?k ?g' = expected_grouped P (seen @ [cur])"
  proof -
    have "set_own (map (\<lambda>k. (k, ?E k)) ?F') ?k ?g'
            = map (\<lambda>k'. (k', if k' = ?k then ?g' else ?E k')) (if ?k \<in> set ?F' then ?F' else ?F' @ [?k])"
      by (rule set_own_map [OF d'])
    also have "\<dots> = map (\<lambda>k'. (k', if k' = ?k then ?g' else ?E k')) ?F'"
      using in' by (simp only: if_True)
    also have "\<dots> = map (\<lambda>k. (k, expected_summary P (seen @ [cur]) k)) ?F'"
      by (rule map_cong) (auto simp: expected_summary_other)
    also have "\<dots> = expected_grouped P (seen @ [cur])"
      using sF by (simp add: expected_grouped_def first_seen_snoc)
    finally show ?thesis unfolding acc1 .
  qed
  have "reducer P (expected_grouped P seen) cur
          = (case map_of ?acc1 ?k of
               None \<Rightarrow> Inl TypeError
             | Some g \<Rightarrow> Inr (set_own ?acc1 ?k
                 (g\<lparr>totalStudies := totalStudies g + 1,
                    modalities := set_own (modalities g) (modality_key P cur)
                      ((case map_of (modalities g) (modality_key P cur) of None \<Rightarrow> 0 | Some n \<Rightarrow> n) + 1),
                    subcategories := increment (subcategories g) (subcategory cur)\<rparr>)))"
    unfolding reducer_def Let_def by (rule refl)
  also have "\<dots> = Inr (set_own ?acc1 ?k ?g')"
    unfolding look by (simp only: option.case expected_summary_step [OF refl])
  finally show ?thesis unfolding upd .
qed

lemma reducer_prototype:
  assumes "specialist_key cur \<in> set Object_prototype_names"
      and "specialist_key cur \<notin> set (map specialist_key seen)"
  shows "reducer P (expected_grouped P seen) cur = Inl TypeError"
  using assms
  by (simp add: reducer_def Let_def expected_grouped_def map_of_map_key set_first_seen)

lemma expected_grouped_Nil: "expected_grouped P [] = []"
  by (simp add: expected_grouped_def first_seen_Nil)

lemma reduce_expected:
  assumes "\<forall>r\<in>set seen. specialist_key r \<notin> set Object_prototype_names"
  shows "reduce P (expected_grouped P seen) rest
       = (if \<exists>r\<in>set rest. specialist_key r \<in> set Object_prototype_names then Inl TypeError
          else Inr (expected_grouped P (seen @ rest)))"
  using assms
proof (induction rest arbitrary: seen)
  case Nil
  then show ?case by simp
next
  case (Cons cur rest)
  show ?case
  proof (cases "specialist_key cur \<in> set Object_prototype_names")
    case True
    then have "specialist_key cur \<notin> set (map specialist_key seen)" using Cons.prems by auto
    with True have "reducer P (expected_grouped P seen) cur = Inl TypeError"
      by (rule reducer_prototype)
    with True show ?thesis by simp
  next
    case False
    then have r: "reducer P (expected_grouped P seen) cur = Inr (expected_grouped P (seen @ [cur]))"
      by (rule reducer_expected)
    have "\<forall>r\<in>set (seen @ [cur]). specialist_key r \<notin> set Object_prototype_names"
      using False Cons.prems by simp
    from Cons.IH [OF this] r False show ?thesis by simp
  qed
qed

lemma insert_sorted_insort_key:
  "insert_sorted (\<lambda>a b. int (totalStudies b) - int (totalStudies a)) x ys
     = insort_key (\<lambda>s. - int (totalStudies s)) x ys"
  by (induction ys) auto

lemma Array_sort_sort_key:
  "Array_sort (\<lambda>a b. int (totalStudies b) - int (totalStudies a)) xs
     = sort_key (\<lambda>s. - int (totalStudies s)) xs"
  by (induction xs) (simp_all add: Array_sort_def insert_sorted_insort_key)

lemma set_OwnPropertyKeys: "set (OwnPropertyKeys ks) = set ks"
  by (auto simp: OwnPropertyKeys_def)

lemma Object_values_expected:
  "Object_values (expected_grouped P data)
     = map (expected_summary P data) (OwnPropertyKeys (first_seen (map specialist_key data)))"
proof -
  let ?F = "first_seen (map specialist_key data)"
  have "map fst (expected_grouped P data) = ?F"
    by (simp add: expected_grouped_def comp_def)
  moreover have "the (map_of (expected_grouped P data) k) = expected_summary P data k"
    if "k \<in> set (OwnPropertyKeys ?F)" for k
    using that by (simp add: expected_grouped_def map_of_map_key set_OwnPropertyKeys)
  ultimately show ?thesis by (simp add: Object_values_def)
qed

lemma getSummaryBySpecialist_expected:
  "getSummaryBySpecialist P data
     = (if \<exists>r\<in>set data. specialist_key r \<in> set Object_prototype_names then Inl TypeError
        else Inr (sort_key (\<lambda>s. - int (totalStudies s))
               (map (expected_summary P data)
                  (OwnPropertyKeys (first_seen (map specialist_key data))))))"
proof -
  have "reduce P [] data
       = (if \<exists>r\<in>set data. specialist_key r \<in> set Object_prototype_names then Inl TypeError
          else Inr (expected_grouped P data))"
    using reduce_expected [of "[]" P data] by (simp add: expected_grouped_Nil)
  then show ?thesis
    by (simp add: getSummaryBySpecialist_def Array_sort_sort_key Object_values_expected)
qed

lemma summary_in_out:
  assumes "getSummaryBySpecialist P data = Inr out" and "s \<in> set out"
  shows "\<exists>k\<in>set (map specialist_key data). s = expected_summary P data k"
  using assms
  by (auto simp: getSummaryBySpecialist_expected set_OwnPropertyKeys set_first_seen
           split: if_splits)

lemma subcategory_counts:
  "length (filter (\<lambda>r. subcategory r = CONTRASTADOS) rs)
     + (length (filter (\<lambda>r. subcategory r = ESPECIALES) rs)
     + length (filter (\<lambda>r. subcategory r = STANDARD) rs)) = length rs"
proof (induction rs)
  case Nil
  then show ?case by simp
next
  case (Cons r rs)
  then show ?case by (cases "subcategory r") simp_all
qed

lemma modalities_expected:
  "map_of (modalities (expected_summary P data k)) m
     = (let n = length (filter (\<lambda>r. specialist_key r = k \<and> modality_key P r = m) data)
        in if n = 0 then None else Some n)"
proof -
  let ?rs = "records_of k data"
  have f: "filter (\<lambda>r. modality_key P r = m) ?rs
             = filter (\<lambda>r. specialist_key r = k \<and> modality_key P r = m) data"
    by (simp add: records_of_def conj_commute)
  have "m \<in> set (map (modality_key P) ?rs) \<longleftrightarrow> filter (\<lambda>r. modality_key P r = m) ?rs \<noteq> []"
    by (auto simp: filter_empty_conv)
  then show ?thesis
    by (simp add: expected_summary_def map_of_map_key set_first_seen f Let_def)
qed

lemmas summary_eval =
  getSummaryBySpecialist_def reducer_def Let_def Object_values_def OwnPropertyKeys_def
  Array_sort_def specialist_key_def modality_key_def orElse_def Object_prototype_names_def
  increment_def isArrayIndex_def isDigit_def digitsValue_def blank_record_def study_def

text \<open>
  C3. Every summary that \<open>getSummaryBySpecialist\<close> returns has exactly the three
  subcategory keys \<open>CONTRASTADOS\<close>, \<open>ESPECIALES\<close>, \<open>STANDARD\<close>, and their counts add up to
  its \<open>totalStudies\<close>. The count under each key is the number of the specialist's records
  with that subcategory, which is zero for a subcategory without a record.
\<close>

theorem summary_subcategories:
  assumes "getSummaryBySpecialist P data = Inr out" and "s \<in> set out"
  shows "map fst (subcategories s) = [CONTRASTADOS, ESPECIALES, STANDARD]
       \<and> sum_list (map snd (subcategories s)) = totalStudies s
       \<and> map_of (subcategories s) c
           = Some (length (filter (\<lambda>r. specialist_key r = specialist s \<and> subcategory r = c) data))"
proof -
  obtain k where s: "s = expected_summary P data k" using summary_in_out [OF assms] by blast
  have f: "filter (\<lambda>r. subcategory r = c) (records_of k data)
             = filter (\<lambda>r. specialist_key r = k \<and> subcategory r = c) data"
    by (simp add: records_of_def conj_commute)
  have "map_of (subcategories s) c
          = Some (length (filter (\<lambda>r. subcategory r = c) (records_of k data)))"
    unfolding s by (cases c) (simp_all add: expected_summary_def)
  then show ?thesis
    unfolding f by (simp add: s expected_summary_def subcategory_counts)
qed

theorem summary_subcategories_witness:
  "getSummaryBySpecialist es_platform
     [study ''Dra. B'' ''ct'' CONTRASTADOS, study ''Dr. A'' '' us'' STANDARD,
      study ''Dra. B'' ''CR'' ESPECIALES]
     = Inr [\<lparr>specialist = lit ''Dra. B'', totalStudies = 2,
             modalities = [(lit ''CT'', 1), (lit ''CR'', 1)],
             subcategories = [(CONTRASTADOS, 1), (ESPECIALES, 1), (STANDARD, 0)]\<rparr>,
            \<lparr>specialist = lit ''Dr. A'', totalStudies = 1, modalities = [(lit ''US'', 1)],
             subcategories = [(CONTRASTADOS, 0), (ESPECIALES, 0), (STANDARD, 1)]\<rparr>]
   \<and> sum_list (map snd (subcategories
        \<lparr>specialist = lit ''Dra. B'', totalStudies = 2,
         modalities = [(lit ''CT'', 1), (lit ''CR'', 1)],
         subcategories = [(CONTRASTADOS, 1), (ESPECIALES, 1), (STANDARD, 0)]\<rparr>)) = 2"
proof -
  let ?ds = "[study ''Dra. B'' ''ct'' CONTRASTADOS, study ''Dr. A'' '' us'' STANDARD,
      study ''Dra. B'' ''CR'' ESPECIALES]"
  let ?b = "\<lparr>specialist = lit ''Dra. B'', totalStudies = 2,
             modalities = [(lit ''CT'', 1), (lit ''CR'', 1)],
             subcategories = [(CONTRASTADOS, 1), (ESPECIALES, 1), (STANDARD, 0)]\<rparr>"
  let ?a = "\<lparr>specialist = lit ''Dr. A'', totalStudies = 1, modalities = [(lit ''US'', 1)],
             subcategories = [(CONTRASTADOS, 0), (ESPECIALES, 0), (STANDARD, 1)]\<rparr>"
  have e: "getSummaryBySpecialist es_platform ?ds = Inr [?b, ?a]"
    by (simp add: summary_eval es_platform_eval)
  have m: "?b \<in> set [?b, ?a]" by simp
  from summary_subcategories [OF e m] e show ?thesis by simp
qed

lemma count_records_of: "length (records_of k data) = count_list (map specialist_key data) k"
  by (induction data) (auto simp: records_of_def)

lemma OwnPropertyKeys_no_index: "\<not> list_ex isArrayIndex ks \<Longrightarrow> OwnPropertyKeys ks = ks"
  by (simp add: OwnPropertyKeys_def list_ex_iff)

lemma list_ex_first_seen: "list_ex Q (first_seen ks) = list_ex Q ks"
  by (simp add: list_ex_iff set_first_seen)

lemma specialist_expected: "specialist (expected_summary P data k) = k"
  by (simp add: expected_summary_def)

lemma totalStudies_expected:
  "totalStudies (expected_summary P data k) = count_list (map specialist_key data) k"
  by (simp add: expected_summary_def count_records_of)

lemma ties_sort_key:
  "map specialist (filter (\<lambda>s. totalStudies s = n)
      (sort_key (\<lambda>s. - int (totalStudies s)) (map (expected_summary P data) ks)))
     = filter (\<lambda>k. count_list (map specialist_key data) k = n) ks"
proof -
  have e: "(\<lambda>s. totalStudies s = n) = (\<lambda>s. - int (totalStudies s) = - int n)" by auto
  have "filter (\<lambda>s. totalStudies s = n)
          (sort_key (\<lambda>s. - int (totalStudies s)) (map (expected_summary P data) ks))
        = filter (\<lambda>s. totalStudies s = n) (map (expected_summary P data) ks)"
    unfolding e by (rule sort_key_stable)
  then show ?thesis
    by (simp add: filter_map comp_def specialist_expected totalStudies_expected)
qed

lemma sorted_desc_sort_key:
  "sorted_wrt (\<lambda>a b. totalStudies b \<le> totalStudies a) (sort_key (\<lambda>s. - int (totalStudies s)) xs)"
proof -
  have "sorted (map (\<lambda>s. - int (totalStudies s)) (sort_key (\<lambda>s. - int (totalStudies s)) xs))"
    by (rule sorted_sort_key)
  then show ?thesis by (simp add: sorted_map)
qed

lemma mset_OwnPropertyKeys: "mset (OwnPropertyKeys ks) = mset ks"
  by (simp add: OwnPropertyKeys_def)

lemma mset_specialists:
  "mset (map specialist (sort_key (\<lambda>s. - int (totalStudies s)) (map (expected_summary P data) ks)))
     = mset ks"
proof -
  have "mset (map specialist (sort_key (\<lambda>s. - int (totalStudies s)) (map (expected_summary P data) ks)))
          = image_mset specialist (mset (map (expected_summary P data) ks))"
    by (simp only: mset_map mset_sort)
  also have "\<dots> = mset (map (\<lambda>k. specialist (expected_summary P data k)) ks)"
    by (simp add: multiset.map_comp comp_def)
  finally show ?thesis by (simp add: specialist_expected)
qed

lemma specialists_out:
  assumes "getSummaryBySpecialist P data = Inr out"
  shows "mset (map specialist out) = mset (first_seen (map specialist_key data))"
proof -
  have "out = sort_key (\<lambda>s. - int (totalStudies s))
               (map (expected_summary P data)
                  (OwnPropertyKeys (first_seen (map specialist_key data))))"
    using assms by (simp add: getSummaryBySpecialist_expected split: if_splits)
  then show ?thesis by (simp only: mset_specialists mset_OwnPropertyKeys)
qed

lemma trim_SIN_ASIGNAR: "trim (lit ''SIN ASIGNAR'') = lit ''SIN ASIGNAR''"
  by (simp add: trim_def isWhiteSpace_def lit_def)

text \<open>
  C4, as stated, fails on the order of ties. The groups are the properties of an object and
  \<open>Object.values\<close> lists a property whose key is an array index before every other one:
  of two specialists with one study each, \<open>B\<close> seen first and \<open>1\<close> seen second, \<open>1\<close>
  comes out first.
\<close>

theorem summaries_order_counterexample:
  "map specialist_key [study ''B'' ''CT'' STANDARD, study ''1'' ''CT'' STANDARD] = [lit ''B'', lit ''1'']
   \<and> getSummaryBySpecialist es_platform [study ''B'' ''CT'' STANDARD, study ''1'' ''CT'' STANDARD]
     = Inr [\<lparr>specialist = lit ''1'', totalStudies = 1, modalities = [(lit ''CT'', 1)],
             subcategories = [(CONTRASTADOS, 0), (ESPECIALES, 0), (STANDARD, 1)]\<rparr>,
            \<lparr>specialist = lit ''B'', totalStudies = 1, modalities = [(lit ''CT'', 1)],
             subcategories = [(CONTRASTADOS, 0), (ESPECIALES, 0), (STANDARD, 1)]\<rparr>]"
  by (simp add: summary_eval es_platform_eval)

text \<open>
  C4, amended. When no specialist key names a member of \<open>Object.prototype\<close>,
  \<open>getSummaryBySpecialist\<close> returns the summaries sorted by \<open>totalStudies\<close>, descending;
  summaries with equal totals appear in the order of \<open>Object.values\<close> on the groups (the
  keys that are array indices in ascending numeric order, then the other keys in the
  order first seen), which is the first-seen order of the groups whenever no specialist
  key is an array index. In particular, for specialists \<open>A\<close> (2 studies), \<open>B\<close> (5) and
  \<open>C\<close> (5), in that order, the output order is \<open>B\<close>, \<open>C\<close>, \<open>A\<close>.
\<close>

theorem summaries_order:
  assumes "\<not> list_ex (\<lambda>r. specialist_key r \<in> set Object_prototype_names) data"
  shows "(\<exists>out. getSummaryBySpecialist P data = Inr out
      \<and> sorted_wrt (\<lambda>a b. totalStudies b \<le> totalStudies a) out
      \<and> (\<forall>n. map specialist (filter (\<lambda>s. totalStudies s = n) out)
             = filter (\<lambda>k. count_list (map specialist_key data) k = n)
                 (OwnPropertyKeys (first_seen (map specialist_key data))))
      \<and> (\<not> list_ex isArrayIndex (map specialist_key data) \<longrightarrow>
           (\<forall>n. map specialist (filter (\<lambda>s. totalStudies s = n) out)
             = filter (\<lambda>k. count_list (map specialist_key data) k = n)
                 (first_seen (map specialist_key data)))))
    \<and> map_sum id (map specialist) (getSummaryBySpecialist P
          (map (\<lambda>who. study who ''CT'' STANDARD)
             [''A'', ''A'', ''B'', ''B'', ''B'', ''B'', ''B'', ''C'', ''C'', ''C'', ''C'', ''C'']))
        = Inr [lit ''B'', lit ''C'', lit ''A'']"
proof
  let ?out = "sort_key (\<lambda>s. - int (totalStudies s))
               (map (expected_summary P data)
                  (OwnPropertyKeys (first_seen (map specialist_key data))))"
  have r: "getSummaryBySpecialist P data = Inr ?out"
    using assms by (simp add: getSummaryBySpecialist_expected list_ex_iff)
  have s: "sorted_wrt (\<lambda>a b. totalStudies b \<le> totalStudies a) ?out"
    by (rule sorted_desc_sort_key)
  have t: "map specialist (filter (\<lambda>s. totalStudies s = n) ?out)
             = filter (\<lambda>k. count_list (map specialist_key data) k = n)
                 (OwnPropertyKeys (first_seen (map specialist_key data)))" for n
    by (rule ties_sort_key)
  have u: "OwnPropertyKeys (first_seen (map specialist_key data)) = first_seen (map specialist_key data)"
    if "\<not> list_ex isArrayIndex (map specialist_key data)"
    using that by (simp add: OwnPropertyKeys_no_index list_ex_first_seen)
  have t': "\<not> list_ex isArrayIndex (map specialist_key data) \<longrightarrow>
           (\<forall>n. map specialist (filter (\<lambda>s. totalStudies s = n) ?out)
             = filter (\<lambda>k. count_list (map specialist_key data) k = n)
                 (first_seen (map specialist_key data)))"
  proof (intro impI allI)
    fix n
    assume a: "\<not> list_ex isArrayIndex (map specialist_key data)"
    show "map specialist (filter (\<lambda>s. totalStudies s = n) ?out)
             = filter (\<lambda>k. count_list (map specialist_key data) k = n)
                 (first_seen (map specialist_key data))"
      using t [of n] unfolding u [OF a] .
  qed
  show "\<exists>out. getSummaryBySpecialist P data = Inr out
      \<and> sorted_wrt (\<lambda>a b. totalStudies b \<le> totalStudies a) out
      \<and> (\<forall>n. map specialist (filter (\<lambda>s. totalStudies s = n) out)
             = filter (\<lambda>k. count_list (map specialist_key data) k = n)
                 (OwnPropertyKeys (first_seen (map specialist_key data))))
      \<and> (\<not> list_ex isArrayIndex (map specialist_key data) \<longrightarrow>
           (\<forall>n. map specialist (filter (\<lambda>s. totalStudies s = n) out)
             = filter (\<lambda>k. count_list (map specialist_key data) k = n)
                 (first_seen (map specialist_key data))))"
  proof (rule exI [of _ ?out], intro conjI allI)
    show "getSummaryBySpecialist P data = Inr ?out" by (rule r)
    show "sorted_wrt (\<lambda>a b. totalStudies b \<le> totalStudies a) ?out" by (rule s)
    show "map specialist (filter (\<lambda>s. totalStudies s = n) ?out)
             = filter (\<lambda>k. count_list (map specialist_key data) k = n)
                 (OwnPropertyKeys (first_seen (map specialist_key data)))" for n
      by (rule t)
    show "\<not> list_ex isArrayIndex (map specialist_key data) \<longrightarrow>
           (\<forall>n. map specialist (filter (\<lambda>s. totalStudies s = n) ?out)
             = filter (\<lambda>k. count_list (map specialist_key data) k = n)
                 (first_seen (map specialist_key data)))"
      by (rule t')
  qed
next
  define abc where "abc = map (\<lambda>who. study who ''CT'' STANDARD)
             [''A'', ''A'', ''B'', ''B'', ''B'', ''B'', ''B'', ''C'', ''C'', ''C'', ''C'', ''C'']"
  have k: "map specialist_key abc
         = map lit [''A'', ''A'', ''B'', ''B'', ''B'', ''B'', ''B'', ''C'', ''C'', ''C'', ''C'', ''C'']"
    by (simp add: abc_def specialist_key_def study_def blank_record_def orElse_def trim_def
          isWhiteSpace_def lit_def)
  have f: "first_seen (map specialist_key abc) = [lit ''A'', lit ''B'', lit ''C'']"
    unfolding k by (simp add: first_seen_def lit_def)
  have o: "OwnPropertyKeys [lit ''A'', lit ''B'', lit ''C''] = [lit ''A'', lit ''B'', lit ''C'']"
    by (simp add: OwnPropertyKeys_def isArrayIndex_def isDigit_def lit_def)
  have p: "\<not> (\<exists>r\<in>set abc. specialist_key r \<in> set Object_prototype_names)"
  proof -
    have "set (map specialist_key abc) \<inter> set Object_prototype_names = {}"
      unfolding k by (simp add: Object_prototype_names_def lit_def)
    then show ?thesis by auto
  qed
  have c: "count_list (map specialist_key abc) (lit ''A'') = 2"
          "count_list (map specialist_key abc) (lit ''B'') = 5"
          "count_list (map specialist_key abc) (lit ''C'') = 5"
    unfolding k by (simp_all add: lit_def)
  have "getSummaryBySpecialist P abc
          = Inr (sort_key (\<lambda>s. - int (totalStudies s))
                  (map (expected_summary P abc) [lit ''A'', lit ''B'', lit ''C'']))"
    using p unfolding getSummaryBySpecialist_expected f o by (simp only: if_False)
  also have "\<dots> = Inr [expected_summary P abc (lit ''B''), expected_summary P abc (lit ''C''),
                        expected_summary P abc (lit ''A'')]"
    by (simp add: totalStudies_expected c)
  finally have "map_sum id (map specialist) (getSummaryBySpecialist P abc)
        = Inr [lit ''B'', lit ''C'', lit ''A'']"
    by (simp add: specialist_expected)
  then show "map_sum id (map specialist) (getSummaryBySpecialist P
          (map (\<lambda>who. study who ''CT'' STANDARD)
             [''A'', ''A'', ''B'', ''B'', ''B'', ''B'', ''B'', ''C'', ''C'', ''C'', ''C'', ''C'']))
        = Inr [lit ''B'', lit ''C'', lit ''A'']"
    unfolding abc_def .
qed

theorem summaries_order_witness:
  "\<not> list_ex (\<lambda>r. specialist_key r \<in> set Object_prototype_names)
       [study ''A'' ''CT'' STANDARD, study ''B'' ''US'' STANDARD, study ''B'' ''US'' STANDARD]
   \<and> \<not> list_ex isArrayIndex (map specialist_key
       [study ''A'' ''CT'' STANDARD, study ''B'' ''US'' STANDARD, study ''B'' ''US'' STANDARD])
   \<and> (\<exists>out. getSummaryBySpecialist es_platform
               [study ''A'' ''CT'' STANDARD, study ''B'' ''US'' STANDARD, study ''B'' ''US'' STANDARD]
             = Inr out
           \<and> sorted_wrt (\<lambda>a b. totalStudies b \<le> totalStudies a) out
           \<and> map specialist (filter (\<lambda>s. totalStudies s = 2) out) = [lit ''B''])"
proof -
  let ?ds = "[study ''A'' ''CT'' STANDARD, study ''B'' ''US'' STANDARD, study ''B'' ''US'' STANDARD]"
  have k: "map specialist_key ?ds = [lit ''A'', lit ''B'', lit ''B'']"
    by (simp add: specialist_key_def study_def blank_record_def orElse_def trim_def
          isWhiteSpace_def lit_def)
  have h: "\<not> list_ex (\<lambda>r. specialist_key r \<in> set Object_prototype_names) ?ds"
    by (simp add: specialist_key_def study_def blank_record_def orElse_def trim_def
          isWhiteSpace_def Object_prototype_names_def lit_def)
  have i: "\<not> list_ex isArrayIndex (map specialist_key ?ds)"
    unfolding k by (simp add: isArrayIndex_def isDigit_def lit_def)
  have f: "filter (\<lambda>k. count_list (map specialist_key ?ds) k = 2)
             (first_seen (map specialist_key ?ds)) = [lit ''B'']"
    unfolding k by (simp add: first_seen_def lit_def)
  from summaries_order [OF h, of es_platform] obtain out where
    o: "getSummaryBySpecialist es_platform ?ds = Inr out"
       "sorted_wrt (\<lambda>a b. totalStudies b \<le> totalStudies a) out"
       "\<not> list_ex isArrayIndex (map specialist_key ?ds) \<longrightarrow>
           (\<forall>n. map specialist (filter (\<lambda>s. totalStudies s = n) out)
             = filter (\<lambda>k. count_list (map specialist_key ?ds) k = n)
                 (first_seen (map specialist_key ?ds)))"
    by blast
  from o(3) i have a: "\<forall>n. map specialist (filter (\<lambda>s. totalStudies s = n) out)
             = filter (\<lambda>k. count_list (map specialist_key ?ds) k = n)
                 (first_seen (map specialist_key ?ds))"
    by (rule mp)
  have b: "map specialist (filter (\<lambda>s. totalStudies s = 2) out) = [lit ''B'']"
    using a [rule_format, of 2] unfolding f .
  show ?thesis using h i o(1,2) b by (intro conjI exI [of _ out])
qed

text \<open>
  C8, as stated, fails: a modality that is not one of the recognized codes is counted under
  its own upper-cased text, not under \<open>N/A\<close>.
\<close>

theorem modality_unrecognized_counterexample:
  "getSummaryBySpecialist es_platform [study ''A'' ''xr'' STANDARD]
     = Inr [\<lparr>specialist = lit ''A'', totalStudies = 1, modalities = [(lit ''XR'', 1)],
             subcategories = [(CONTRASTADOS, 0), (ESPECIALES, 0), (STANDARD, 1)]\<rparr>]
   \<and> map_of [(lit ''XR'', 1::nat)] (lit ''N/A'') = None"
  by (simp add: summary_eval es_platform_eval)

text \<open>
  C8, amended. In every summary returned, the count under a key \<open>m\<close> is the number of
  records of that specialist whose modality key is \<open>m\<close> (no entry when there is none),
  and the modality key of a record is its modality, trimmed and upper-cased, with \<open>N/A\<close>
  taking the place of an absent or empty modality. The key is \<open>N/A\<close> exactly for a
  modality that is absent, empty, or whose trimmed and upper-cased text is \<open>N/A\<close> itself;
  any other value, recognized or not, is counted under its own key. The platform is
  assumed to upper-case \<open>N/A\<close> to itself, as every runtime does.
\<close>

theorem modality_counts:
  assumes "getSummaryBySpecialist P data = Inr out" and "s \<in> set out"
      and "toUpperCase P (lit ''N/A'') = lit ''N/A''"
  shows "map_of (modalities s) m
       = (let n = length (filter (\<lambda>r. specialist_key r = specialist s \<and> modality_key P r = m) data)
          in if n = 0 then None else Some n)
     \<and> modality_key P r
       = (case modalidad r of
            None \<Rightarrow> lit ''N/A''
          | Some x \<Rightarrow> if x = [] then lit ''N/A'' else toUpperCase P (trim x))
     \<and> (modality_key P r = lit ''N/A'' \<longleftrightarrow>
          modalidad r = None \<or> modalidad r = Some []
          \<or> (\<exists>x. modalidad r = Some x \<and> toUpperCase P (trim x) = lit ''N/A''))"
proof (intro conjI)
  obtain k where s: "s = expected_summary P data k"
    using summary_in_out [OF assms(1,2)] by blast
  then have "specialist s = k" by (simp add: specialist_expected)
  then show "map_of (modalities s) m
       = (let n = length (filter (\<lambda>r. specialist_key r = specialist s \<and> modality_key P r = m) data)
          in if n = 0 then None else Some n)"
    unfolding s by (simp only: modalities_expected)
next
  have t: "trim (lit ''N/A'') = lit ''N/A''" by (simp add: trim_def isWhiteSpace_def lit_def)
  then show k: "modality_key P r
       = (case modalidad r of
            None \<Rightarrow> lit ''N/A''
          | Some x \<Rightarrow> if x = [] then lit ''N/A'' else toUpperCase P (trim x))"
    using assms(3) by (simp add: modality_key_def orElse_def split: option.splits)
  have e: "trim [] = []" by (simp add: trim_def)
  show "modality_key P r = lit ''N/A'' \<longleftrightarrow>
          modalidad r = None \<or> modalidad r = Some []
          \<or> (\<exists>x. modalidad r = Some x \<and> toUpperCase P (trim x) = lit ''N/A'')"
    unfolding k by (cases "modalidad r") auto
qed

theorem modality_counts_witness:
  "getSummaryBySpecialist es_platform
     [study ''A'' '' us'' STANDARD, study ''A'' [] STANDARD, study ''A'' ''n/a'' STANDARD]
     = Inr [\<lparr>specialist = lit ''A'', totalStudies = 3,
             modalities = [(lit ''US'', 1), (lit ''N/A'', 2)],
             subcategories = [(CONTRASTADOS, 0), (ESPECIALES, 0), (STANDARD, 3)]\<rparr>]
   \<and> toUpperCase es_platform (lit ''N/A'') = lit ''N/A''
   \<and> modality_key es_platform (study ''A'' [] STANDARD) = lit ''N/A''
   \<and> length (filter (\<lambda>r. specialist_key r = lit ''A'' \<and> modality_key es_platform r = lit ''N/A'')
        [study ''A'' '' us'' STANDARD, study ''A'' [] STANDARD, study ''A'' ''n/a'' STANDARD]) = 2"
proof -
  let ?ds = "[study ''A'' '' us'' STANDARD, study ''A'' [] STANDARD, study ''A'' ''n/a'' STANDARD]"
  let ?a = "\<lparr>specialist = lit ''A'', totalStudies = 3,
             modalities = [(lit ''US'', 1), (lit ''N/A'', 2)],
             subcategories = [(CONTRASTADOS, 0), (ESPECIALES, 0), (STANDARD, 3)]\<rparr>"
  have e: "getSummaryBySpecialist es_platform ?ds = Inr [?a]"
    by (simp add: summary_eval es_platform_eval)
  have m: "?a \<in> set [?a]" by simp
  have u: "toUpperCase es_platform (lit ''N/A'') = lit ''N/A''"
    by (simp add: es_platform_eval)
  have n: "map_of (modalities ?a) (lit ''N/A'') = Some 2" by (simp add: lit_def)
  have r: "modalidad (study ''A'' [] STANDARD) = Some []"
    by (simp add: study_def blank_record_def lit_def)
  note t = modality_counts [OF e m u, of "lit ''N/A''" "study ''A'' [] STANDARD"]
  from t r have k: "modality_key es_platform (study ''A'' [] STANDARD) = lit ''N/A''" by blast
  from t have "Some 2
       = (let n = length (filter (\<lambda>r. specialist_key r = specialist ?a
                                     \<and> modality_key es_platform r = lit ''N/A'') ?ds)
          in if n = 0 then None else Some n)"
    unfolding n by (rule conjunct1)
  then have c: "length (filter (\<lambda>r. specialist_key r = lit ''A'' \<and> modality_key es_platform r = lit ''N/A'')
        ?ds) = 2"
    by (simp add: Let_def split: if_splits)
  show ?thesis using e u k c by (intro conjI)
qed

text \<open>
  C10, as stated, fails in its last part: a field that holds the text \<open>SIN ASIGNAR\<close> itself
  is neither empty nor absent and lands in the same bucket as the records without a name.
\<close>

theorem sentinel_bucket_shared_counterexample:
  "realizado_por (study ''SIN ASIGNAR'' ''CT'' STANDARD) = Some (lit ''SIN ASIGNAR'')
   \<and> lit ''SIN ASIGNAR'' \<noteq> []
   \<and> specialist_key (study ''SIN ASIGNAR'' ''CT'' STANDARD) = lit ''SIN ASIGNAR''
   \<and> getSummaryBySpecialist es_platform [study ''SIN ASIGNAR'' ''CT'' STANDARD, study [] ''CT'' STANDARD]
     = Inr [\<lparr>specialist = lit ''SIN ASIGNAR'', totalStudies = 2, modalities = [(lit ''CT'', 2)],
             subcategories = [(CONTRASTADOS, 0), (ESPECIALES, 0), (STANDARD, 2)]\<rparr>]"
  by (simp add: summary_eval es_platform_eval)

text \<open>
  C10, amended. A record whose specialist name is not empty and made of white space only
  has the empty string as its key, not \<open>SIN ASIGNAR\<close>, since the fallback is applied
  before trimming. The key is \<open>SIN ASIGNAR\<close> exactly for a name that is absent, empty,
  or that trims to the text \<open>SIN ASIGNAR\<close> itself. The summaries returned have
  distinct specialists, one for each key of the input, and each counts the records of its
  key: a record is grouped under its key and nowhere else.
\<close>

theorem specialist_bucket:
  "(realizado_por r = Some s \<and> s \<noteq> [] \<and> list_all isWhiteSpace s \<longrightarrow>
      specialist_key r = [] \<and> specialist_key r \<noteq> lit ''SIN ASIGNAR'')
   \<and> (specialist_key r = lit ''SIN ASIGNAR'' \<longleftrightarrow>
        realizado_por r = None \<or> realizado_por r = Some []
        \<or> (\<exists>x. realizado_por r = Some x \<and> trim x = lit ''SIN ASIGNAR''))
   \<and> (getSummaryBySpecialist P data = Inr out \<longrightarrow>
        distinct (map specialist out)
        \<and> set (map specialist out) = set (map specialist_key data)
        \<and> (\<forall>g\<in>set out. totalStudies g
              = length (filter (\<lambda>r'. specialist_key r' = specialist g) data)))"
proof (intro conjI impI)
  assume a: "realizado_por r = Some s \<and> s \<noteq> [] \<and> list_all isWhiteSpace s"
  then have "trim s = []" by (simp add: trim_blank)
  with a show "specialist_key r = []" by (simp add: specialist_key_def orElse_def)
  then show "specialist_key r \<noteq> lit ''SIN ASIGNAR''" by (simp add: lit_def)
next
  show "specialist_key r = lit ''SIN ASIGNAR'' \<longleftrightarrow>
        realizado_por r = None \<or> realizado_por r = Some []
        \<or> (\<exists>x. realizado_por r = Some x \<and> trim x = lit ''SIN ASIGNAR'')"
    by (cases "realizado_por r") (auto simp: specialist_key_def orElse_def trim_SIN_ASIGNAR)
next
  assume o: "getSummaryBySpecialist P data = Inr out"
  note m = specialists_out [OF o]
  have "distinct (map specialist out) \<longleftrightarrow> distinct (first_seen (map specialist_key data))"
    using m by (rule mset_eq_imp_distinct_iff)
  then show "distinct (map specialist out)" by (simp add: distinct_first_seen)
  have "set (map specialist out) = set (first_seen (map specialist_key data))"
    using m by (rule mset_eq_setD)
  then show "set (map specialist out) = set (map specialist_key data)"
    by (simp add: set_first_seen)
  show "\<forall>g\<in>set out. totalStudies g = length (filter (\<lambda>r'. specialist_key r' = specialist g) data)"
  proof
    fix g
    assume "g \<in> set out"
    then obtain k where "g = expected_summary P data k" using summary_in_out [OF o] by blast
    then show "totalStudies g = length (filter (\<lambda>r'. specialist_key r' = specialist g) data)"
      by (simp add: expected_summary_def records_of_def)
  qed
qed

theorem specialist_bucket_witness:
  "realizado_por (study ''  '' ''CT'' STANDARD) = Some (lit ''  '')
   \<and> specialist_key (study ''  '' ''CT'' STANDARD) = []
   \<and> getSummaryBySpecialist es_platform [study ''  '' ''CT'' STANDARD, study [] ''CT'' STANDARD]
     = Inr [\<lparr>specialist = [], totalStudies = 1, modalities = [(lit ''CT'', 1)],
             subcategories = [(CONTRASTADOS, 0), (ESPECIALES, 0), (STANDARD, 1)]\<rparr>,
            \<lparr>specialist = lit ''SIN ASIGNAR'', totalStudies = 1, modalities = [(lit ''CT'', 1)],
             subcategories = [(CONTRASTADOS, 0), (ESPECIALES, 0), (STANDARD, 1)]\<rparr>]
   \<and> length (filter (\<lambda>r'. specialist_key r' = []) [study ''  '' ''CT'' STANDARD, study [] ''CT'' STANDARD]) = 1"
proof -
  let ?r = "study ''  '' ''CT'' STANDARD"
  let ?ds = "[?r, study [] ''CT'' STANDARD]"
  let ?g = "\<lparr>specialist = [], totalStudies = 1, modalities = [(lit ''CT'', 1)],
             subcategories = [(CONTRASTADOS, 0), (ESPECIALES, 0), (STANDARD, 1)]\<rparr>"
  let ?h = "\<lparr>specialist = lit ''SIN ASIGNAR'', totalStudies = 1, modalities = [(lit ''CT'', 1)],
             subcategories = [(CONTRASTADOS, 0), (ESPECIALES, 0), (STANDARD, 1)]\<rparr>"
  have a: "realizado_por ?r = Some (lit ''  '') \<and> lit ''  '' \<noteq> [] \<and> list_all isWhiteSpace (lit ''  '')"
    by (simp add: study_def blank_record_def isWhiteSpace_def lit_def)
  have e: "getSummaryBySpecialist es_platform ?ds = Inr [?g, ?h]"
    by (simp add: summary_eval es_platform_eval)
  note t = specialist_bucket [of ?r "lit ''  ''" es_platform ?ds "[?g, ?h]"]
  from t a have k: "specialist_key ?r = []" by blast
  from t e have "\<forall>g\<in>set [?g, ?h]. totalStudies g
              = length (filter (\<lambda>r'. specialist_key r' = specialist g) ?ds)"
    by blast
  from this [THEN bspec, of ?g]
  have c: "length (filter (\<lambda>r'. specialist_key r' = []) ?ds) = 1" by simp
  have a1: "realizado_por ?r = Some (lit ''  '')" using a by blast
  show ?thesis using a1 k e c by (intro conjI)
qed

end
